theory Spec2Isabelle
  imports Complex_Main
begin

section \<open>Strings and the Python built-ins the program relies on\<close>

text \<open>
  Strings are lists of 8-bit characters, read as the code points below 256 of Python's
  \<^verbatim>\<open>str\<close>. Python's floats are modelled by exact rationals: the quotient
  \<^verbatim>\<open>a / b\<close> of two integers is the rational \<open>a / b\<close>, with the
  \<^verbatim>\<open>ZeroDivisionError\<close> written out; rounding, infinities and not-a-number
  are not represented. Number parsing and number formatting
  (\<^verbatim>\<open>float(s)\<close>, \<^verbatim>\<open>f"{x:.1f}"\<close>, \<^verbatim>\<open>f"{n:,}"\<close>,
  \<^verbatim>\<open>f"{n}"\<close>) are built-ins of the language, not code of the program, and are
  taken as parameters.
\<close>

record builtins =
  float_of :: "string \<Rightarrow> rat option"
  fmt_fixed :: "nat \<Rightarrow> rat \<Rightarrow> string"
  fmt_comma :: "int \<Rightarrow> string"
  fmt_int :: "int \<Rightarrow> string"

text \<open>\<^verbatim>\<open>str.isspace\<close> on the code points below 256.\<close>

definition py_isspace :: "char \<Rightarrow> bool" where
  "py_isspace c =
     (let n = (of_char c :: nat)
      in (9 \<le> n \<and> n \<le> 13) \<or> (28 \<le> n \<and> n \<le> 32) \<or> n = 133 \<or> n = 160)"

text \<open>\<^verbatim>\<open>s.strip()\<close>: whitespace is removed at both ends only.\<close>

definition py_strip :: "string \<Rightarrow> string" where
  "py_strip s = rev (dropWhile py_isspace (rev (dropWhile py_isspace s)))"

text \<open>\<^verbatim>\<open>sep.join(parts)\<close>.\<close>

fun py_join :: "string \<Rightarrow> string list \<Rightarrow> string" where
  "py_join sep [] = []"
| "py_join sep [x] = x"
| "py_join sep (x # y # ys) = x @ sep @ py_join sep (y # ys)"

text \<open>\<^verbatim>\<open>s.replace(c, '')\<close> for a one-character \<open>c\<close>.\<close>

definition py_remove :: "char \<Rightarrow> string \<Rightarrow> string" where
  "py_remove c s = filter (\<lambda>x. x \<noteq> c) s"

text \<open>\<^verbatim>\<open>s.startswith(p)\<close>.\<close>

definition startswith :: "string \<Rightarrow> string \<Rightarrow> bool" where
  "startswith s p = (take (length p) s = p)"

text \<open>\<^verbatim>\<open>os.path.join(a, b)\<close> on POSIX.\<close>

definition path_join :: "string \<Rightarrow> string \<Rightarrow> string" where
  "path_join a b =
     (if startswith b ''/'' then b
      else if a = [] \<or> last a = CHR ''/'' then a @ b
      else a @ ''/'' @ b)"

section \<open>URL validator\<close>

text \<open>
  \<^verbatim>\<open>re.search(r'(?:v=|\/)([a-zA-Z0-9_-]{11})', url)\<close>: the character class, one
  attempt of the pattern at the start of a suffix, and the scan over the start positions
  from left to right.
\<close>

definition id_char :: "char \<Rightarrow> bool" where
  "id_char c =
     (let n = (of_char c :: nat)
      in (97 \<le> n \<and> n \<le> 122) \<or> (65 \<le> n \<and> n \<le> 90) \<or> (48 \<le> n \<and> n \<le> 57)
         \<or> c = CHR ''_'' \<or> c = CHR ''-'')"

definition id_token :: "string \<Rightarrow> string option" where
  "id_token s =
     (let t = take 11 s
      in if length t = 11 \<and> list_all id_char t then Some t else None)"

definition match_here :: "string \<Rightarrow> string option" where
  "match_here s =
     (if startswith s ''v='' then id_token (drop 2 s)
      else if startswith s ''/'' then id_token (drop 1 s)
      else None)"

fun re_search :: "string \<Rightarrow> string option" where
  "re_search [] = match_here []"
| "re_search (c # cs) =
     (case match_here (c # cs) of Some t \<Rightarrow> Some t | None \<Rightarrow> re_search cs)"

definition extract_video_id :: "string \<Rightarrow> string option" where
  "extract_video_id url = re_search url"

section \<open>Events, exceptions and the trace of a run\<close>

datatype phase = Download | Transcribe

record progress_data =
  message :: string
  detail :: string
  percentage :: rat
  phase :: phase

text \<open>The three outbound channel events, by their names in the source.\<close>

datatype event =
  Progress progress_data
| Transcription_complete string
| Transcription_error string

text \<open>
  What a run does that the outside can see, in order: the events it emits and its calls
  of the external download tool and of the external recogniser.
\<close>

datatype effect =
  Emit event
| Invoke_download string
| Invoke_transcribe string

datatype exn_class =
  ImportError | KeyError | TypeError | AttributeError | ZeroDivisionError | OtherException

datatype exn = Exn exn_class string

fun str_exn :: "exn \<Rightarrow> string" where
  "str_exn (Exn c m) = m"

definition py_truediv :: "int \<Rightarrow> int \<Rightarrow> exn + rat" where
  "py_truediv a b =
     (if b = 0 then Inl (Exn ZeroDivisionError ''division by zero'')
      else Inr (of_int a / of_int b))"

section \<open>Progress relay\<close>

text \<open>
  A notification is the dictionary yt-dlp passes to a progress hook. An entry is absent,
  present with the value \<^verbatim>\<open>None\<close>, or present with a value.
\<close>

datatype 'a entry = Missing | PyNone | Val 'a

record notification =
  status :: string
  total_bytes :: "int entry"
  downloaded_bytes :: "int entry"
  percent_str :: "string entry"

record progress_hook =
  download_progress :: rat

definition new_progress_hook :: progress_hook where
  "new_progress_hook = \<lparr>download_progress = 0\<rparr>"

text \<open>\<^verbatim>\<open>'total_bytes' in d and d['total_bytes']\<close>.\<close>

definition total_bytes_truthy :: "notification \<Rightarrow> bool" where
  "total_bytes_truthy d = (case total_bytes d of Val t \<Rightarrow> t \<noteq> 0 | _ \<Rightarrow> False)"

text \<open>Lines 55 to 62: the branch that computes the ratio of the byte counts.\<close>

definition byte_ratio_update ::
  "builtins \<Rightarrow> progress_hook \<Rightarrow> notification \<Rightarrow> exn + (progress_hook \<times> event list)" where
  "byte_ratio_update B h d =
     (case downloaded_bytes d of
        Missing \<Rightarrow> Inl (Exn KeyError ([CHR 39] @ ''downloaded_bytes'' @ [CHR 39]))
      | PyNone \<Rightarrow> Inl (Exn TypeError ''unsupported operand type(s) for /'')
      | Val n \<Rightarrow>
          (case total_bytes d of
             Missing \<Rightarrow> Inl (Exn KeyError ([CHR 39] @ ''total_bytes'' @ [CHR 39]))
           | PyNone \<Rightarrow> Inl (Exn TypeError ''unsupported operand type(s) for /'')
           | Val t \<Rightarrow>
               (case py_truediv n t of
                  Inl e \<Rightarrow> Inl e
                | Inr q \<Rightarrow>
                    (let percent = q * 100
                     in Inr (h\<lparr>download_progress := percent\<rparr>,
                          [Progress \<lparr>message = ''Downloading audio...'',
                             detail = ''Downloaded '' @ fmt_comma B n @ '' of ''
                                        @ fmt_comma B t @ '' bytes'',
                             percentage = percent,
                             phase = Download\<rparr>])))))"

text \<open>
  Lines 63 to 77: the fallback to the preformatted percentage string. The bare
  \<^verbatim>\<open>except\<close> covers the parse, the assignment and the emit.
\<close>

definition percent_str_update ::
  "builtins \<Rightarrow> progress_hook \<Rightarrow> notification \<Rightarrow> exn + (progress_hook \<times> event list)" where
  "percent_str_update B h d =
     (case percent_str d of
        Missing \<Rightarrow> Inr (h, [])
      | PyNone \<Rightarrow> Inl (Exn AttributeError ''object has no attribute strip'')
      | Val s \<Rightarrow>
          (let ps = py_strip s
           in if CHR ''%'' \<in> set ps then
                (case float_of B (py_remove CHR ''%'' ps) of
                   None \<Rightarrow> Inr (h, [])
                 | Some percent \<Rightarrow>
                     Inr (h\<lparr>download_progress := percent\<rparr>,
                       [Progress \<lparr>message = ''Downloading audio...'',
                          detail = ''Progress: '' @ ps,
                          percentage = percent,
                          phase = Download\<rparr>]))
              else Inr (h, [])))"

definition download_finished :: event where
  "download_finished =
     Progress \<lparr>message = ''Download complete!'',
       detail = ''Preparing for transcription...'',
       percentage = 100,
       phase = Download\<rparr>"

text \<open>\<^verbatim>\<open>ProgressHook.__call__\<close>: the new state and the events emitted, or the exception.\<close>

definition progress_hook_call ::
  "builtins \<Rightarrow> progress_hook \<Rightarrow> notification \<Rightarrow> exn + (progress_hook \<times> event list)" where
  "progress_hook_call B h d =
     (if status d = ''downloading'' then
        (if total_bytes_truthy d then byte_ratio_update B h d
         else if percent_str d \<noteq> Missing then percent_str_update B h d
         else Inr (h, []))
      else if status d = ''finished'' then Inr (h, [download_finished])
      else Inr (h, []))"

text \<open>
  The download tool calls the hook once per notification, in order; an exception of the
  hook ends the sequence.
\<close>

fun run_hooks ::
  "builtins \<Rightarrow> progress_hook \<Rightarrow> notification list \<Rightarrow> event list \<times> (exn + progress_hook)" where
  "run_hooks B h [] = ([], Inr h)"
| "run_hooks B h (d # ds) =
     (case progress_hook_call B h d of
        Inl e \<Rightarrow> ([], Inl e)
      | Inr (h', evs) \<Rightarrow>
          (case run_hooks B h' ds of (evs', r) \<Rightarrow> (evs @ evs', r)))"

text \<open>The percentages of the download-phase progress events among some events.\<close>

fun download_percentages :: "event list \<Rightarrow> rat list" where
  "download_percentages [] = []"
| "download_percentages (Progress p # es) =
     (if phase p = Download then percentage p # download_percentages es
      else download_percentages es)"
| "download_percentages (e # es) = download_percentages es"

section \<open>The external collaborators of one run\<close>

text \<open>
  What the recogniser returns: the texts of the segments its lazy sequence yields, the
  exception that sequence raises after them (if any), and the language detection.
\<close>

record recognition =
  segments :: "string list"
  segments_error :: "exn option"
  language :: string
  language_probability :: rat

text \<open>
  The answers of the operating system and of the two external libraries. An answer is a
  value or the exception raised. For the download tool it is the notifications it passes
  to the progress hook, then the exception it raises itself (if any).
\<close>

record world =
  disk_usage :: "(nat \<times> nat \<times> nat) option"
  make_temp_dir :: "exn + string"
  import_yt_dlp :: "exn option"
  ydl_download :: "string \<Rightarrow> string \<Rightarrow> notification list \<times> exn option"
  listdir :: "string \<Rightarrow> exn + string list"
  getsize :: "string \<Rightarrow> exn + nat"
  import_faster_whisper :: "exn option"
  whisper_model :: "exn option"
  model_transcribe :: "string \<Rightarrow> exn + recognition"

section \<open>Download/transcribe orchestrator\<close>

text \<open>
  \<^verbatim>\<open>get_disk_usage\<close>: free and total space in MB, or \<^verbatim>\<open>(None, None)\<close>
  when \<^verbatim>\<open>shutil.disk_usage\<close> raises.
\<close>

definition get_disk_usage :: "world \<Rightarrow> (rat \<times> rat) option" where
  "get_disk_usage W =
     (case disk_usage W of
        None \<Rightarrow> None
      | Some (total_b, used_b, free_b) \<Rightarrow>
          Some (of_nat free_b / (1024 * 1024), of_nat total_b / (1024 * 1024)))"

text \<open>
  Lines 179 to 188: the loop over the segments, with the index \<open>i\<close> of
  \<^verbatim>\<open>enumerate\<close> and the list \<open>parts\<close> accumulated so far. It returns the
  events emitted and the final list.
\<close>

fun segment_loop ::
  "builtins \<Rightarrow> nat \<Rightarrow> string list \<Rightarrow> string list \<Rightarrow> event list \<times> string list" where
  "segment_loop B i parts [] = ([], parts)"
| "segment_loop B i parts (s # ss) =
     (let parts' = parts @ [s];
          evs = (if i mod 10 = 0 then
                   [Progress \<lparr>message = ''Assembling transcript...'',
                      detail = ''Processing segment '' @ fmt_int B (int i + 1),
                      percentage = 80 + (of_nat i * 15 / of_nat (max 1 (length parts'))),
                      phase = Transcribe\<rparr>]
                 else [])
      in case segment_loop B (Suc i) parts' ss of (evs', final) \<Rightarrow> (evs @ evs', final))"

text \<open>Lines 151 to 199: the body of the inner \<^verbatim>\<open>try\<close>.\<close>

definition transcription_body ::
  "builtins \<Rightarrow> world \<Rightarrow> string \<Rightarrow> effect list \<times> (exn + string)" where
  "transcription_body B W audio_file =
     (case import_faster_whisper W of
        Some e \<Rightarrow> ([], Inl e)
      | None \<Rightarrow>
     (let t1 = [Emit (Progress \<lparr>message = ''Loading Whisper model...'',
                   detail = ''Initializing base model'',
                   percentage = 10,
                   phase = Transcribe\<rparr>)]
      in case whisper_model W of
           Some e \<Rightarrow> (t1, Inl e)
         | None \<Rightarrow>
     (let t2 = t1 @ [Emit (Progress \<lparr>message = ''Transcribing audio...'',
                        detail = ''Processing speech recognition'',
                        percentage = 30,
                        phase = Transcribe\<rparr>),
                     Invoke_transcribe audio_file]
      in case model_transcribe W audio_file of
           Inl e \<Rightarrow> (t2, Inl e)
         | Inr r \<Rightarrow>
     (let t3 = t2 @ [Emit (Progress \<lparr>message = ''Processing results...'',
                        detail = ''Detected language: '' @ language r @ '' (confidence: ''
                                   @ fmt_fixed B 2 (language_probability r) @ '')'',
                        percentage = 80,
                        phase = Transcribe\<rparr>)]
      in case segment_loop B 0 [] (segments r) of
           (evs, transcript_parts) \<Rightarrow>
     (case segments_error r of
        Some e \<Rightarrow> (t3 @ map Emit evs, Inl e)
      | None \<Rightarrow>
     (let transcript = py_strip (py_join '' '' transcript_parts)
      in (t3 @ map Emit evs
            @ [Emit (Progress \<lparr>message = ''Transcription complete!'',
                       detail = ''Generated '' @ fmt_int B (int (length transcript))
                                  @ '' characters'',
                       percentage = 100,
                       phase = Transcribe\<rparr>)],
          Inr transcript)))))))"

text \<open>Lines 150 to 204: the inner \<^verbatim>\<open>try\<close> with its two handlers.\<close>

definition try_transcription ::
  "builtins \<Rightarrow> world \<Rightarrow> string \<Rightarrow> effect list \<times> (exn + string)" where
  "try_transcription B W audio_file =
     (case transcription_body B W audio_file of
        (t, Inr transcript) \<Rightarrow> (t, Inr transcript)
      | (t, Inl (Exn ImportError m)) \<Rightarrow>
          (t, Inl (Exn OtherException
                 ''faster-whisper not installed. Please install it first.''))
      | (t, Inl e) \<Rightarrow>
          (t, Inl (Exn OtherException (''Transcription failed: '' @ str_exn e))))"

text \<open>
  Lines 120 to 121: the download, with a fresh progress hook wired in. An exception of
  the hook leaves the download tool as it is.
\<close>

definition run_download ::
  "builtins \<Rightarrow> world \<Rightarrow> string \<Rightarrow> string \<Rightarrow> effect list \<times> exn option" where
  "run_download B W youtube_url outtmpl =
     (case ydl_download W youtube_url outtmpl of
        (ds, err) \<Rightarrow>
          (case run_hooks B new_progress_hook ds of
             (evs, r) \<Rightarrow>
               (Invoke_download youtube_url # map Emit evs,
                case r of Inl e \<Rightarrow> Some e | Inr h \<Rightarrow> err)))"

text \<open>Lines 108 to 204: the body of the outer \<^verbatim>\<open>try\<close>.\<close>

definition processing_body ::
  "builtins \<Rightarrow> world \<Rightarrow> string \<Rightarrow> string \<Rightarrow> effect list \<times> (exn + string)" where
  "processing_body B W youtube_url temp_dir =
     (case import_yt_dlp W of
        Some e \<Rightarrow> ([], Inl e)
      | None \<Rightarrow>
     (case run_download B W youtube_url (temp_dir @ ''/audio.%(ext)s'') of
        (t1, Some e) \<Rightarrow> (t1, Inl e)
      | (t1, None) \<Rightarrow>
     (case listdir W temp_dir of
        Inl e \<Rightarrow> (t1, Inl e)
      | Inr names \<Rightarrow>
     (let files = filter (\<lambda>f. startswith f ''audio.'') names
      in if files = [] then
           (t1, Inl (Exn OtherException ''No audio file found after download''))
         else
     (let audio_file = path_join temp_dir (hd files)
      in case getsize W audio_file of
           Inl e \<Rightarrow> (t1, Inl e)
         | Inr file_size \<Rightarrow>
     (let file_size_mb = (of_nat file_size :: rat) / (1024 * 1024);
          t2 = t1 @ [Emit (Progress \<lparr>message = ''Download complete!'',
                        detail = ''Audio file: '' @ fmt_fixed B 1 file_size_mb
                                   @ ''MB - preparing for transcription'',
                        percentage = 100,
                        phase = Download\<rparr>),
                     Emit (Progress \<lparr>message = ''Starting transcription...'',
                        detail = ''Loading Whisper model'',
                        percentage = 0,
                        phase = Transcribe\<rparr>)]
      in case try_transcription B W audio_file of
           (t3, r) \<Rightarrow> (t2 @ t3, r)))))))"

text \<open>Lines 107 to 207: the outer \<^verbatim>\<open>try\<close> with its handler.\<close>

definition try_processing ::
  "builtins \<Rightarrow> world \<Rightarrow> string \<Rightarrow> string \<Rightarrow> effect list \<times> (exn + string)" where
  "try_processing B W youtube_url temp_dir =
     (case processing_body B W youtube_url temp_dir of
        (t, Inr transcript) \<Rightarrow> (t, Inr transcript)
      | (t, Inl e) \<Rightarrow>
          (t, Inl (Exn OtherException (''Processing failed: '' @ str_exn e))))"

text \<open>
  \<^verbatim>\<open>download_and_transcribe_with_progress\<close>: the trace of the run and the
  transcript returned or the exception raised. The \<^verbatim>\<open>print\<close> calls are left out.
\<close>

definition download_and_transcribe_with_progress ::
  "builtins \<Rightarrow> world \<Rightarrow> string \<Rightarrow> effect list \<times> (exn + string)" where
  "download_and_transcribe_with_progress B W youtube_url =
     (let t0 = [Emit (Progress \<lparr>message = ''Initializing download...'',
                   detail = ''Setting up yt-dlp'',
                   percentage = 0,
                   phase = Download\<rparr>)]
      in case get_disk_usage W of
           Some (free_mb, total_mb) \<Rightarrow>
             (if free_mb \<noteq> 0 \<and> free_mb < 100 then
                (t0, Inl (Exn OtherException
                      (''Insufficient disk space: '' @ fmt_fixed B 0 free_mb
                         @ ''MB available'')))
              else
                (case make_temp_dir W of
                   Inl e \<Rightarrow> (t0, Inl e)
                 | Inr temp_dir \<Rightarrow>
                     (case try_processing B W youtube_url temp_dir of
                        (t, r) \<Rightarrow> (t0 @ t, r))))
         | None \<Rightarrow>
             (case make_temp_dir W of
                Inl e \<Rightarrow> (t0, Inl e)
              | Inr temp_dir \<Rightarrow>
                  (case try_processing B W youtube_url temp_dir of
                     (t, r) \<Rightarrow> (t0 @ t, r))))"

section \<open>Session/event gateway\<close>

text \<open>\<^verbatim>\<open>extraction_task\<close>, the body of the background thread: its trace.\<close>

definition extraction_task :: "builtins \<Rightarrow> world \<Rightarrow> string \<Rightarrow> effect list" where
  "extraction_task B W url =
     (case download_and_transcribe_with_progress B W url of
        (t, Inr transcript) \<Rightarrow>
          (if transcript = [] then
             t @ [Emit (Transcription_error ''No transcript generated'')]
           else t @ [Emit (Transcription_complete transcript)])
      | (t, Inl e) \<Rightarrow> t @ [Emit (Transcription_error (str_exn e))])"

text \<open>
  \<^verbatim>\<open>handle_extraction\<close>: the events emitted before the handler returns, and the
  URL of the background task it starts (if any). The message payload is a dictionary
  from keys to strings.
\<close>

record gateway_outcome =
  emitted :: "event list"
  spawned :: "string option"

definition handle_extraction :: "(string \<rightharpoonup> string) \<Rightarrow> gateway_outcome" where
  "handle_extraction data =
     (case data ''url'' of
        None \<Rightarrow> \<lparr>emitted = [Transcription_error ''No URL provided''], spawned = None\<rparr>
      | Some url \<Rightarrow>
          (if url = [] then
             \<lparr>emitted = [Transcription_error ''No URL provided''], spawned = None\<rparr>
           else
             (case extract_video_id url of
                None \<Rightarrow>
                  \<lparr>emitted = [Transcription_error ''Invalid YouTube URL''], spawned = None\<rparr>
              | Some video_id \<Rightarrow> \<lparr>emitted = [], spawned = Some url\<rparr>)))"

text \<open>Which effects are terminal events, and which are completion events.\<close>

fun is_terminal :: "effect \<Rightarrow> bool" where
  "is_terminal (Emit (Transcription_complete t)) = True"
| "is_terminal (Emit (Transcription_error m)) = True"
| "is_terminal x = False"

fun is_completion :: "effect \<Rightarrow> bool" where
  "is_completion (Emit (Transcription_complete t)) = True"
| "is_completion x = False"

section \<open>Vocabulary of the properties\<close>

text \<open>
  A token at position \<open>k\<close> of a text: eleven identifier characters right after a
  \<^verbatim>\<open>v=\<close> marker or a \<^verbatim>\<open>/\<close> that starts at \<open>k\<close>.
\<close>

definition token_at :: "string \<Rightarrow> nat \<Rightarrow> string \<Rightarrow> bool" where
  "token_at url k tok =
     (length tok = 11 \<and> list_all id_char tok \<and>
      (take 13 (drop k url) = ''v='' @ tok \<or> take 12 (drop k url) = ''/'' @ tok))"

definition v_token_at :: "string \<Rightarrow> nat \<Rightarrow> string \<Rightarrow> bool" where
  "v_token_at url k tok =
     (length tok = 11 \<and> list_all id_char tok \<and> take 13 (drop k url) = ''v='' @ tok)"

text \<open>
  A download notification that carries byte counts with the total \<open>t\<close>, and the
  byte count it carries.
\<close>

definition is_byte_update :: "int \<Rightarrow> notification \<Rightarrow> bool" where
  "is_byte_update t d =
     (status d = ''downloading'' \<and> total_bytes d = Val t \<and>
      (case downloaded_bytes d of Val n \<Rightarrow> True | _ \<Rightarrow> False))"

definition byte_count :: "notification \<Rightarrow> int" where
  "byte_count d = (case downloaded_bytes d of Val n \<Rightarrow> n | _ \<Rightarrow> 0)"

text \<open>The progress event of the segment with index \<open>i\<close>, as the claim describes it.\<close>

definition segment_progress :: "builtins \<Rightarrow> nat \<Rightarrow> event" where
  "segment_progress B i =
     Progress \<lparr>message = ''Assembling transcript...'',
       detail = ''Processing segment '' @ fmt_int B (int i + 1),
       percentage = 80 + of_nat i * 15 / of_nat (i + 1),
       phase = Transcribe\<rparr>"

fun is_progress :: "event \<Rightarrow> bool" where
  "is_progress (Progress p) = True"
| "is_progress e = False"

section \<open>Concrete inputs\<close>

text \<open>
  One choice of the built-ins, for the concrete runs: decimal rendering of integers,
  with and without thousands separators, rendering with a fixed number of decimals
  (rounding half to even), and parsing of unsigned decimals.
\<close>

fun show_nat :: "nat \<Rightarrow> string" where
  "show_nat n =
     (if n < 10 then [char_of (48 + n)]
      else show_nat (n div 10) @ [char_of (48 + n mod 10)])"

definition show_int :: "int \<Rightarrow> string" where
  "show_int i = (if i < 0 then CHR ''-'' # show_nat (nat (- i)) else show_nat (nat i))"

fun group3 :: "nat \<Rightarrow> string" where
  "group3 n =
     (if n < 1000 then show_nat n
      else group3 (n div 1000) @ '','' @
           [char_of (48 + n mod 1000 div 100), char_of (48 + n mod 100 div 10),
            char_of (48 + n mod 10)])"

definition show_comma :: "int \<Rightarrow> string" where
  "show_comma i = (if i < 0 then CHR ''-'' # group3 (nat (- i)) else group3 (nat i))"

definition show_fixed :: "nat \<Rightarrow> rat \<Rightarrow> string" where
  "show_fixed p x =
     (let y = \<bar>x\<bar> * 10 ^ p;
          scaled = (if y - of_int \<lfloor>y\<rfloor> < 1 / 2 \<or> (y - of_int \<lfloor>y\<rfloor> = 1 / 2 \<and> even \<lfloor>y\<rfloor>)
                    then \<lfloor>y\<rfloor> else \<lfloor>y\<rfloor> + 1);
          whole = nat (scaled div 10 ^ p);
          frac = show_nat (nat (scaled mod 10 ^ p));
          sign = (if x < 0 \<and> 0 < scaled then ''-'' else [])
      in if p = 0 then sign @ show_nat whole
         else sign @ show_nat whole @ ''.'' @ replicate (p - length frac) CHR ''0'' @ frac)"

definition digit_value :: "char \<Rightarrow> nat option" where
  "digit_value c =
     (let n = (of_char c :: nat) in if 48 \<le> n \<and> n \<le> 57 then Some (n - 48) else None)"

fun digits_value :: "nat \<Rightarrow> string \<Rightarrow> nat option" where
  "digits_value acc [] = Some acc"
| "digits_value acc (c # cs) =
     (case digit_value c of None \<Rightarrow> None | Some v \<Rightarrow> digits_value (10 * acc + v) cs)"

definition parse_decimal :: "string \<Rightarrow> rat option" where
  "parse_decimal s =
     (let w = takeWhile (\<lambda>c. c \<noteq> CHR ''.'') s;
          f = drop 1 (dropWhile (\<lambda>c. c \<noteq> CHR ''.'') s)
      in if w = [] \<and> f = [] then None
         else (case (digits_value 0 w, digits_value 0 f) of
                 (Some a, Some b) \<Rightarrow> Some (of_nat a + of_nat b / 10 ^ length f)
               | _ \<Rightarrow> None))"

definition sample_builtins :: builtins where
  "sample_builtins =
     \<lparr>float_of = parse_decimal, fmt_fixed = show_fixed, fmt_comma = show_comma,
      fmt_int = show_int\<rparr>"

text \<open>Notifications of the three kinds the relay distinguishes.\<close>

definition finished_notification :: notification where
  "finished_notification =
     \<lparr>status = ''finished'', total_bytes = Val 2048, downloaded_bytes = Val 2048,
      percent_str = Missing\<rparr>"

definition byte_notification :: "int \<Rightarrow> int \<Rightarrow> notification" where
  "byte_notification n t =
     \<lparr>status = ''downloading'', total_bytes = Val t, downloaded_bytes = Val n,
      percent_str = Missing\<rparr>"

definition percent_notification :: "string \<Rightarrow> notification" where
  "percent_notification s =
     \<lparr>status = ''downloading'', total_bytes = Missing, downloaded_bytes = Missing,
      percent_str = Val s\<rparr>"

text \<open>
  A world in which every external step succeeds: the disk has the given number of free
  bytes, the download reports two byte counts and finishes, leaving one audio file, and
  the recogniser yields the given segment texts.
\<close>

definition sample_world :: "nat \<Rightarrow> string list \<Rightarrow> world" where
  "sample_world free_bytes segs =
     \<lparr>disk_usage = Some (64000000000, 64000000000 - free_bytes, free_bytes),
      make_temp_dir = Inr ''/tmp/tmpk3x9'',
      import_yt_dlp = None,
      ydl_download = (\<lambda>u t.
        ([byte_notification 1024 2048, byte_notification 2048 2048, finished_notification],
         None)),
      listdir = (\<lambda>d. Inr [''audio.webm'']),
      getsize = (\<lambda>f. Inr 2048),
      import_faster_whisper = None,
      whisper_model = None,
      model_transcribe = (\<lambda>f.
        Inr \<lparr>segments = segs, segments_error = None, language = ''en'',
             language_probability = 99 / 100\<rparr>)\<rparr>"

text \<open>
  A world whose disk is full: no free byte is reported, and the download tool fails
  for lack of space.
\<close>

definition full_disk_world :: world where
  "full_disk_world =
     (sample_world 0 [])
       \<lparr>ydl_download := (\<lambda>u t.
          ([], Some (Exn OtherException
                 ''ERROR: unable to write data: [Errno 28] No space left on device'')))\<rparr>"

definition sample_url :: string where
  "sample_url = ''https://www.youtube.com/watch?v=dQw4w9WgXcQ''"

section \<open>URL validator: the leftmost token wins\<close>

lemma take_add_append:
  assumes "length p = m" "length t = n"
  shows "take (m + n) s = p @ t \<longleftrightarrow> (take m s = p \<and> take n (drop m s) = t)"
proof
  assume a: "take (m + n) s = p @ t"
  then have "length (take (m + n) s) = m + n" using assms by simp
  then have "m + n \<le> length s" by simp
  then have "length (take m s) = length p" using assms by simp
  with a show "take m s = p \<and> take n (drop m s) = t" by (simp add: take_add)
next
  assume "take m s = p \<and> take n (drop m s) = t"
  then show "take (m + n) s = p @ t" by (simp add: take_add)
qed

lemma id_token_Some:
  "id_token s = Some t \<longleftrightarrow> (length t = 11 \<and> list_all id_char t \<and> take 11 s = t)"
  by (auto simp: id_token_def Let_def)

lemma match_here_cases:
  "match_here s =
     (if take 2 s = ''v='' then id_token (drop 2 s)
      else if take 1 s = ''/'' then id_token (drop 1 s) else None)"
  by (simp add: match_here_def startswith_def numeral_2_eq_2)

lemma match_here_Some:
  "match_here s = Some t \<longleftrightarrow>
     (length t = 11 \<and> list_all id_char t \<and> (take 13 s = ''v='' @ t \<or> take 12 s = ''/'' @ t))"
proof (cases "length t = 11")
  case False
  then show ?thesis
    by (auto simp: match_here_cases id_token_Some)
next
  case len: True
  have v: "take 13 s = ''v='' @ t \<longleftrightarrow> (take 2 s = ''v='' \<and> take 11 (drop 2 s) = t)"
    using take_add_append [of "''v=''" 2 t 11 s] len by simp
  have s: "take 12 s = ''/'' @ t \<longleftrightarrow> (take 1 s = ''/'' \<and> take 11 (drop 1 s) = t)"
    using take_add_append [of "''/''" 1 t 11 s] len by simp
  have ne: "take 2 s = ''v='' \<Longrightarrow> take 1 s \<noteq> ''/''"
    by (cases s) auto
  show ?thesis
  proof (cases "take 2 s = ''v=''")
    case True
    then have "match_here s = id_token (drop 2 s)" by (simp add: match_here_cases)
    then show ?thesis using True ne v s len by (simp only: id_token_Some) blast
  next
    case nv: False
    show ?thesis
    proof (cases "take 1 s = ''/''")
      case True
      then have "match_here s = id_token (drop 1 s)"
        using nv by (simp add: match_here_cases)
      then show ?thesis using True nv v s len by (simp only: id_token_Some) blast
    next
      case False
      then have "match_here s = None"
        using nv by (simp add: match_here_cases)
      then show ?thesis using False nv v s by (simp only:) blast
    qed
  qed
qed

lemma match_here_token_at: "match_here (drop k url) = Some t \<longleftrightarrow> token_at url k t"
  by (simp add: match_here_Some token_at_def)

lemma match_here_Nil: "match_here [] = None"
  by (simp add: match_here_def startswith_def)

lemma re_search_first:
  "match_here (drop k s) = Some t \<Longrightarrow> (\<forall>j<k. match_here (drop j s) = None) \<Longrightarrow> re_search s = Some t"
proof (induction s arbitrary: k)
  case Nil
  then show ?case by simp
next
  case (Cons c cs)
  show ?case
  proof (cases k)
    case 0
    with Cons.prems show ?thesis by simp
  next
    case (Suc k')
    with Cons.prems have h0: "match_here (c # cs) = None" by auto
    from Cons.prems Suc have "match_here (drop k' cs) = Some t" by simp
    moreover have "\<forall>j<k'. match_here (drop j cs) = None"
    proof (intro allI impI)
      fix j assume "j < k'"
      then have "Suc j < k" using Suc by simp
      with Cons.prems(2) have "match_here (drop (Suc j) (c # cs)) = None" by blast
      then show "match_here (drop j cs) = None" by simp
    qed
    ultimately have "re_search cs = Some t" by (rule Cons.IH)
    with h0 show ?thesis by simp
  qed
qed

lemma re_search_None: "re_search s = None \<longleftrightarrow> (\<forall>k. match_here (drop k s) = None)"
proof (induction s)
  case Nil
  then show ?case by (simp add: match_here_Nil)
next
  case (Cons c cs)
  show ?case
  proof
    assume a: "re_search (c # cs) = None"
    then have h: "match_here (c # cs) = None" and r: "re_search cs = None"
      by (auto split: option.splits)
    show "\<forall>k. match_here (drop k (c # cs)) = None"
    proof
      fix k show "match_here (drop k (c # cs)) = None"
        using h r Cons.IH by (cases k) auto
    qed
  next
    assume a: "\<forall>k. match_here (drop k (c # cs)) = None"
    then have "match_here (drop 0 (c # cs)) = None" by blast
    then have h: "match_here (c # cs) = None" by simp
    have "\<forall>k. match_here (drop k cs) = None"
    proof
      fix k from a have "match_here (drop (Suc k) (c # cs)) = None" by blast
      then show "match_here (drop k cs) = None" by simp
    qed
    with Cons.IH have "re_search cs = None" by simp
    with h show "re_search (c # cs) = None" by simp
  qed
qed

lemma leftmost_token:
  assumes "token_at url k tok" "\<forall>j<k. \<forall>t. \<not> token_at url j t"
  shows "extract_video_id url = Some tok"
proof -
  have "match_here (drop k url) = Some tok"
    using assms(1) by (simp add: match_here_token_at)
  moreover have "\<forall>j<k. match_here (drop j url) = None"
  proof (intro allI impI)
    fix j assume "j < k"
    with assms(2) have "\<forall>t. \<not> token_at url j t" by blast
    then have "\<forall>t. match_here (drop j url) \<noteq> Some t" by (simp add: match_here_token_at)
    then show "match_here (drop j url) = None" by (cases "match_here (drop j url)") auto
  qed
  ultimately show ?thesis
    unfolding extract_video_id_def by (rule re_search_first)
qed

lemma no_token:
  assumes "\<forall>j t. \<not> token_at url j t"
  shows "extract_video_id url = None"
proof -
  have "match_here (drop k url) = None" for k
    using assms by (cases "match_here (drop k url)") (auto simp: match_here_token_at)
  then show ?thesis
    by (simp add: extract_video_id_def re_search_None)
qed

lemma v_token_is_token: "v_token_at url k tok \<Longrightarrow> token_at url k tok"
  by (simp add: v_token_at_def token_at_def)

lemma no_token_short: "length url < 12 \<Longrightarrow> \<not> token_at url j t"
  by (auto simp: token_at_def dest!: arg_cong [where f = length])

text \<open>
  C3 (as amended). The validator returns the token of the leftmost position at which a
  \<^verbatim>\<open>v=\<close> or a \<^verbatim>\<open>/\<close> is followed by eleven identifier characters: a
  \<^verbatim>\<open>v=\<close> token is returned when no token of either marker starts before it, the
  same holds for a token of either marker, and a text with no token at all is invalid
  (\<open>None\<close>).
\<close>

theorem extract_video_id_leftmost_token:
  "(v_token_at url k tok \<and> (\<forall>j<k. \<forall>t. \<not> token_at url j t) \<longrightarrow> extract_video_id url = Some tok)
   \<and> (token_at url k tok \<and> (\<forall>j<k. \<forall>t. \<not> token_at url j t) \<longrightarrow> extract_video_id url = Some tok)
   \<and> ((\<forall>j t. \<not> token_at url j t) \<longrightarrow> extract_video_id url = None)"
  using leftmost_token [of url k tok] no_token [of url] v_token_is_token [of url k tok]
  by blast

text \<open>
  An earlier \<^verbatim>\<open>/\<close> token takes precedence over a \<^verbatim>\<open>v=\<close> token: the text
  below contains \<^verbatim>\<open>v=bbbbbbbbbbb\<close>, and the validator returns
  \<^verbatim>\<open>aaaaaaaaaaa\<close>.
\<close>

theorem extract_video_id_v_token_counterexample:
  "v_token_at ''/aaaaaaaaaaa?v=bbbbbbbbbbb'' 13 ''bbbbbbbbbbb''
   \<and> extract_video_id ''/aaaaaaaaaaa?v=bbbbbbbbbbb'' = Some ''aaaaaaaaaaa''
   \<and> extract_video_id ''/aaaaaaaaaaa?v=bbbbbbbbbbb'' \<noteq> Some ''bbbbbbbbbbb''"
  by (simp add: v_token_at_def id_char_def extract_video_id_def match_here_def startswith_def id_token_def)

theorem extract_video_id_leftmost_token_witness:
  "v_token_at ''x?v=dQw4w9WgXcQ'' 2 ''dQw4w9WgXcQ''
   \<and> \<not> (\<exists>j<2. \<exists>t. token_at ''x?v=dQw4w9WgXcQ'' j t)
   \<and> extract_video_id ''x?v=dQw4w9WgXcQ'' = Some ''dQw4w9WgXcQ''
   \<and> \<not> (\<exists>j t. token_at ''watch'' j t)
   \<and> extract_video_id ''watch'' = None"
proof -
  have v: "v_token_at ''x?v=dQw4w9WgXcQ'' 2 ''dQw4w9WgXcQ''"
    by (simp add: v_token_at_def id_char_def)
  have e: "\<forall>j<2. \<forall>t. \<not> token_at ''x?v=dQw4w9WgXcQ'' j t"
  proof (intro allI impI)
    fix j :: nat and t assume "j < 2"
    then have "j = 0 \<or> j = 1" by auto
    then show "\<not> token_at ''x?v=dQw4w9WgXcQ'' j t"
      by (auto simp: token_at_def)
  qed
  have n: "\<forall>j t. \<not> token_at ''watch'' j t"
    by (simp add: no_token_short)
  show ?thesis
    using v e n
      extract_video_id_leftmost_token [of "''x?v=dQw4w9WgXcQ''" 2 "''dQw4w9WgXcQ''"]
      extract_video_id_leftmost_token [of "''watch''" 0 "[]"]
    by blast
qed


section \<open>Progress relay\<close>

lemma byte_update_call:
  assumes "is_byte_update t d" "t \<noteq> 0"
  shows "progress_hook_call B h d =
     Inr (h\<lparr>download_progress := of_int (byte_count d) / of_int t * 100\<rparr>,
       [Progress \<lparr>message = ''Downloading audio...'',
          detail = ''Downloaded '' @ fmt_comma B (byte_count d) @ '' of ''
                     @ fmt_comma B t @ '' bytes'',
          percentage = of_int (byte_count d) / of_int t * 100,
          phase = Download\<rparr>])"
  using assms
  by (auto simp: is_byte_update_def byte_count_def progress_hook_call_def
      total_bytes_truthy_def byte_ratio_update_def py_truediv_def Let_def
      split: entry.splits)

lemma byte_updates_then_finished:
  assumes "list_all (is_byte_update t) ds" "t \<noteq> 0" "status fin = ''finished''"
  shows "download_percentages (fst (run_hooks B h (ds @ [fin]))) =
           map (\<lambda>d. of_int (byte_count d) / of_int t * 100) ds @ [100]
         \<and> (\<exists>h'. snd (run_hooks B h (ds @ [fin])) = Inr h')"
  using assms
proof (induction ds arbitrary: h)
  case Nil
  then show ?case
    by (simp add: progress_hook_call_def download_finished_def)
next
  case (Cons d ds)
  let ?h = "h\<lparr>download_progress := of_int (byte_count d) / of_int t * 100\<rparr>"
  from Cons.prems have d: "is_byte_update t d" and ds: "list_all (is_byte_update t) ds"
    by simp_all
  from Cons.IH [OF ds Cons.prems(2,3), of ?h] byte_update_call [OF d Cons.prems(2), of B h]
  show ?case
    by (auto split: prod.splits)
qed

lemma percentages_sorted:
  assumes "0 < t" "sorted (map byte_count ds)" "list_all (\<lambda>d. byte_count d \<le> t) ds"
  shows "sorted (map (\<lambda>d. (of_int (byte_count d) :: rat) / of_int t * 100) ds @ [100])"
  using assms
proof (induction ds)
  case Nil
  then show ?case by simp
next
  case (Cons d ds)
  have le100: "(of_int (byte_count x) :: rat) / of_int t * 100 \<le> 100" if "byte_count x \<le> t" for x
  proof -
    have "(of_int (byte_count x) :: rat) \<le> of_int t" using that by simp
    then have "(of_int (byte_count x) :: rat) / of_int t \<le> 1"
      using \<open>0 < t\<close> by (simp add: divide_le_eq_1)
    then have "(of_int (byte_count x) :: rat) / of_int t * 100 \<le> 1 * 100"
      by (rule mult_right_mono) simp
    then show ?thesis by simp
  qed
  have mono: "(of_int (byte_count d) :: rat) / of_int t * 100 \<le> of_int (byte_count x) / of_int t * 100"
    if "byte_count d \<le> byte_count x" for x
  proof -
    have "(of_int (byte_count d) :: rat) \<le> of_int (byte_count x)" using that by simp
    then have "(of_int (byte_count d) :: rat) / of_int t \<le> of_int (byte_count x) / of_int t"
      using \<open>0 < t\<close> by (simp add: divide_right_mono)
    then show ?thesis by (rule mult_right_mono) simp
  qed
  from Cons.prems have "\<forall>x\<in>set ds. byte_count d \<le> byte_count x" by auto
  moreover from Cons.prems have "byte_count d \<le> t" by simp
  moreover from Cons have "sorted (map (\<lambda>d. (of_int (byte_count d) :: rat) / of_int t * 100) ds @ [100])"
    by simp
  ultimately show ?case
    using le100 mono by (auto simp: sorted_append)
qed

text \<open>
  C4 (as amended). For byte-count notifications with a fixed positive total whose byte
  counts are non-decreasing and do not exceed the total, followed by a "finished"
  notification, the relay raises nothing and the download-phase percentages it emits are
  non-decreasing, one per notification, and end with exactly 100.
\<close>

theorem relay_percentages_monotone:
  assumes "0 < t"
    and "list_all (is_byte_update t) ds"
    and "sorted (map byte_count ds)"
    and "list_all (\<lambda>d. byte_count d \<le> t) ds"
    and "status fin = ''finished''"
  shows "sorted (download_percentages (fst (run_hooks B h (ds @ [fin]))))
         \<and> last (download_percentages (fst (run_hooks B h (ds @ [fin])))) = 100
         \<and> length (download_percentages (fst (run_hooks B h (ds @ [fin])))) = length ds + 1
         \<and> (\<exists>h'. snd (run_hooks B h (ds @ [fin])) = Inr h')"
proof -
  from assms(1) have t: "t \<noteq> 0" by simp
  note eq = byte_updates_then_finished [OF assms(2) t assms(5), of B h]
  from eq percentages_sorted [OF assms(1,3,4)] show ?thesis by simp
qed

text \<open>
  Without the bound the sequence can decrease: a byte count of 200 against a total of 100
  gives the percentage 200, and the "finished" notification then gives 100.
\<close>

theorem relay_percentages_counterexample:
  "sorted (map byte_count [byte_notification 200 100])
   \<and> is_byte_update 100 (byte_notification 200 100)
   \<and> status finished_notification = ''finished''
   \<and> download_percentages (fst (run_hooks sample_builtins new_progress_hook
        [byte_notification 200 100, finished_notification])) = [200, 100]
   \<and> \<not> sorted (download_percentages (fst (run_hooks sample_builtins new_progress_hook
        [byte_notification 200 100, finished_notification])))"
  by (simp add: byte_notification_def finished_notification_def is_byte_update_def
      byte_count_def progress_hook_call_def total_bytes_truthy_def byte_ratio_update_def
      py_truediv_def download_finished_def)

theorem relay_percentages_monotone_witness:
  "(0::int) < 2048
   \<and> list_all (is_byte_update 2048) [byte_notification 512 2048, byte_notification 2048 2048]
   \<and> sorted (map byte_count [byte_notification 512 2048, byte_notification 2048 2048])
   \<and> list_all (\<lambda>d. byte_count d \<le> 2048) [byte_notification 512 2048, byte_notification 2048 2048]
   \<and> status finished_notification = ''finished''
   \<and> sorted (download_percentages (fst (run_hooks sample_builtins new_progress_hook
        [byte_notification 512 2048, byte_notification 2048 2048, finished_notification])))
   \<and> last (download_percentages (fst (run_hooks sample_builtins new_progress_hook
        [byte_notification 512 2048, byte_notification 2048 2048, finished_notification]))) = 100"
proof -
  have a: "list_all (is_byte_update 2048) [byte_notification 512 2048, byte_notification 2048 2048]"
    by (simp add: is_byte_update_def byte_notification_def)
  have b: "sorted (map byte_count [byte_notification 512 2048, byte_notification 2048 2048])"
    by (simp add: byte_count_def byte_notification_def)
  have c: "list_all (\<lambda>d. byte_count d \<le> 2048) [byte_notification 512 2048, byte_notification 2048 2048]"
    by (simp add: byte_count_def byte_notification_def)
  have d: "status finished_notification = ''finished''"
    by (simp add: finished_notification_def)
  have z: "(0::int) < 2048" by simp
  from relay_percentages_monotone [OF z a b c d, of sample_builtins new_progress_hook] a b c d
  show ?thesis by simp
qed

text \<open>
  C5. A downloading notification whose total is absent or falsy and whose percentage
  string, stripped and with the percent signs removed, does not parse as a number: the
  relay returns normally, emits nothing and keeps its state.
\<close>

theorem unparsable_percent_dropped:
  assumes "status d = ''downloading''"
    and "\<not> total_bytes_truthy d"
    and "percent_str d = Val s"
    and "float_of B (py_remove CHR ''%'' (py_strip s)) = None"
  shows "progress_hook_call B h d = Inr (h, [])"
  using assms by (simp add: progress_hook_call_def percent_str_update_def Let_def)

theorem unparsable_percent_dropped_witness:
  "status (percent_notification '' N/A%'') = ''downloading''
   \<and> \<not> total_bytes_truthy (percent_notification '' N/A%'')
   \<and> percent_str (percent_notification '' N/A%'') = Val '' N/A%''
   \<and> float_of sample_builtins (py_remove CHR ''%'' (py_strip '' N/A%'')) = None
   \<and> progress_hook_call sample_builtins new_progress_hook (percent_notification '' N/A%'')
       = Inr (new_progress_hook, [])"
proof -
  have a: "status (percent_notification '' N/A%'') = ''downloading''"
    by (simp add: percent_notification_def)
  have b: "\<not> total_bytes_truthy (percent_notification '' N/A%'')"
    by (simp add: percent_notification_def total_bytes_truthy_def)
  have c: "percent_str (percent_notification '' N/A%'') = Val '' N/A%''"
    by (simp add: percent_notification_def)
  have d: "float_of sample_builtins (py_remove CHR ''%'' (py_strip '' N/A%'')) = None"
    by (simp add: sample_builtins_def py_remove_def py_strip_def py_isspace_def
        parse_decimal_def digit_value_def)
  from unparsable_percent_dropped [OF a b c d, of new_progress_hook] a b c d
  show ?thesis by simp
qed

text \<open>
  C10. A downloading notification whose total is present but zero or \<^verbatim>\<open>None\<close>
  never reaches the division: the call is the percentage-string branch, or emits
  nothing when there is no percentage string, and no call of the relay raises
  \<^verbatim>\<open>ZeroDivisionError\<close>.
\<close>

theorem falsy_total_never_divides:
  assumes "status d = ''downloading''"
    and "total_bytes d = Val 0 \<or> total_bytes d = PyNone"
  shows "progress_hook_call B h d =
           (if percent_str d = Missing then Inr (h, []) else percent_str_update B h d)
         \<and> progress_hook_call B h d \<noteq> Inl (Exn ZeroDivisionError m)
         \<and> progress_hook_call B h' d' \<noteq> Inl (Exn ZeroDivisionError m)"
proof -
  have nz: "percent_str_update B k e \<noteq> Inl (Exn ZeroDivisionError m)" for k e
    by (simp add: percent_str_update_def Let_def split: entry.splits option.splits)
  have bz: "total_bytes_truthy e \<Longrightarrow> byte_ratio_update B k e \<noteq> Inl (Exn ZeroDivisionError m)" for k e
    by (auto simp: total_bytes_truthy_def byte_ratio_update_def py_truediv_def Let_def
        split: entry.splits)
  have gen: "progress_hook_call B k e \<noteq> Inl (Exn ZeroDivisionError m)" for k e
    using nz bz by (simp add: progress_hook_call_def)
  from assms have "\<not> total_bytes_truthy d"
    by (auto simp: total_bytes_truthy_def)
  with assms(1) have "progress_hook_call B h d =
      (if percent_str d = Missing then Inr (h, []) else percent_str_update B h d)"
    by (simp add: progress_hook_call_def)
  moreover have "progress_hook_call B h d \<noteq> Inl (Exn ZeroDivisionError m)"
    by (rule gen)
  moreover have "progress_hook_call B h' d' \<noteq> Inl (Exn ZeroDivisionError m)"
    by (rule gen)
  ultimately show ?thesis by (intro conjI)
qed

theorem falsy_total_never_divides_witness:
  "status (byte_notification 512 0) = ''downloading''
   \<and> total_bytes (byte_notification 512 0) = Val 0
   \<and> progress_hook_call sample_builtins new_progress_hook (byte_notification 512 0)
       = Inr (new_progress_hook, [])"
proof -
  have a: "status (byte_notification 512 0) = ''downloading''"
    by (simp add: byte_notification_def)
  have b: "total_bytes (byte_notification 512 0) = Val 0 \<or> total_bytes (byte_notification 512 0) = PyNone"
    by (simp add: byte_notification_def)
  have c: "percent_str (byte_notification 512 0) = Missing"
    by (simp add: byte_notification_def)
  from falsy_total_never_divides [OF a b, of sample_builtins new_progress_hook] a b c
  show ?thesis by (simp add: byte_notification_def)
qed

section \<open>Orchestrator: the segment loop\<close>

lemma segment_loop_from:
  "length parts = i \<Longrightarrow>
   segment_loop B i parts segs =
     (map (segment_progress B) (filter (\<lambda>j. j mod 10 = 0) [i..<i + length segs]),
      parts @ segs)"
proof (induction segs arbitrary: i parts)
  case Nil
  then show ?case by simp
next
  case (Cons s ss)
  have "length (parts @ [s]) = Suc i" using Cons.prems by simp
  from Cons.IH [OF this]
  have rec: "segment_loop B (Suc i) (parts @ [s]) ss =
     (map (segment_progress B) (filter (\<lambda>j. j mod 10 = 0) [Suc i..<Suc i + length ss]),
      (parts @ [s]) @ ss)" .
  have upt: "[i..<i + length (s # ss)] = i # [Suc i..<Suc i + length ss]"
    by (subst upt_rec) simp
  show ?case
    using Cons.prems
    by (simp only: segment_loop.simps rec upt Let_def)
       (simp add: segment_progress_def)
qed



section \<open>Orchestrator: what a run emits\<close>

lemma hook_call_progress:
  "progress_hook_call B h d = Inr (h', evs) \<Longrightarrow> list_all is_progress evs"
  by (auto simp: progress_hook_call_def byte_ratio_update_def percent_str_update_def
      download_finished_def py_truediv_def Let_def
      split: if_splits entry.splits option.splits sum.splits)

lemma run_hooks_progress: "run_hooks B h ds = (evs, r) \<Longrightarrow> list_all is_progress evs"
  by (induction ds arbitrary: h evs r)
     (auto split: sum.splits prod.splits dest: hook_call_progress)

lemma segment_loop_progress:
  "segment_loop B i parts segs = (evs, final) \<Longrightarrow> list_all is_progress evs"
  by (induction segs arbitrary: i parts evs final)
     (auto simp: Let_def split: prod.splits if_splits)

lemma emit_progress_not_terminal:
  "list_all is_progress evs \<Longrightarrow> list_all (\<lambda>x. \<not> is_terminal x) (map Emit evs)"
proof (induction evs)
  case Nil
  then show ?case by simp
next
  case (Cons e evs)
  then show ?case by (cases e) simp_all
qed

lemma transcription_body_not_terminal:
  "transcription_body B W f = (t, r) \<Longrightarrow> list_all (\<lambda>x. \<not> is_terminal x) t"
  by (auto simp: transcription_body_def Let_def
      split: option.splits sum.splits prod.splits
      dest!: segment_loop_progress emit_progress_not_terminal)

lemma try_transcription_fst:
  "fst (try_transcription B W f) = fst (transcription_body B W f)"
  by (simp add: try_transcription_def split: prod.splits sum.splits exn.splits exn_class.splits)

lemma try_transcription_not_terminal:
  "try_transcription B W f = (t, r) \<Longrightarrow> list_all (\<lambda>x. \<not> is_terminal x) t"
  using try_transcription_fst [of B W f]
    transcription_body_not_terminal [of B W f t "snd (transcription_body B W f)"]
  by (cases "transcription_body B W f") simp

lemma run_download_not_terminal:
  "run_download B W u t = (tr, r) \<Longrightarrow> list_all (\<lambda>x. \<not> is_terminal x) tr"
  by (auto simp: run_download_def split: prod.splits
      dest!: run_hooks_progress emit_progress_not_terminal)

lemma run_download_not_transcribe:
  "Invoke_transcribe a \<notin> set (fst (run_download B W u t))"
  by (auto simp: run_download_def split: prod.splits)

lemma processing_body_not_terminal:
  "processing_body B W u dir = (t, r) \<Longrightarrow> list_all (\<lambda>x. \<not> is_terminal x) t"
  unfolding processing_body_def Let_def
  by (auto split: option.splits sum.splits prod.splits if_splits
      dest!: run_download_not_terminal try_transcription_not_terminal)

lemma try_processing_fst:
  "fst (try_processing B W u dir) = fst (processing_body B W u dir)"
  by (simp add: try_processing_def split: prod.splits sum.splits)

lemma try_processing_not_terminal:
  "try_processing B W u dir = (t, r) \<Longrightarrow> list_all (\<lambda>x. \<not> is_terminal x) t"
  using try_processing_fst [of B W u dir]
    processing_body_not_terminal [of B W u dir t "snd (processing_body B W u dir)"]
  by (cases "processing_body B W u dir") simp

lemma orchestrator_not_terminal:
  "download_and_transcribe_with_progress B W u = (t, r) \<Longrightarrow>
   list_all (\<lambda>x. \<not> is_terminal x) t"
  unfolding download_and_transcribe_with_progress_def Let_def
  by (auto split: option.splits sum.splits prod.splits if_splits
      dest!: try_processing_not_terminal)


lemma completion_is_terminal: "is_completion x \<Longrightarrow> is_terminal x"
  by (cases x rule: is_completion.cases) simp_all

lemma not_terminal_no_completion:
  "list_all (\<lambda>x. \<not> is_terminal x) t \<Longrightarrow> \<not> list_ex is_completion t"
  by (induction t) (auto dest: completion_is_terminal)

section \<open>Orchestrator: reaching the recogniser\<close>

lemma transcription_body_reached:
  "Invoke_transcribe a \<in> set (fst (transcription_body B W f)) \<Longrightarrow>
   a = f \<and> import_faster_whisper W = None \<and> whisper_model W = None"
  by (auto simp: transcription_body_def Let_def
      split: option.splits sum.splits prod.splits)

lemma transcription_body_result:
  assumes "import_faster_whisper W = None" "whisper_model W = None"
    and "model_transcribe W f = Inr r" "segments_error r = None"
  shows "snd (transcription_body B W f) = Inr (py_strip (py_join '' '' (segments r)))"
  using assms segment_loop_from [of "[]" 0 B "segments r"]
  by (simp add: transcription_body_def Let_def)

lemma try_transcription_result:
  "snd (transcription_body B W f) = Inr x \<Longrightarrow> snd (try_transcription B W f) = Inr x"
  by (cases "transcription_body B W f") (simp add: try_transcription_def)

lemma processing_body_reached:
  "Invoke_transcribe a \<in> set (fst (processing_body B W u dir)) \<Longrightarrow>
   snd (processing_body B W u dir) = snd (try_transcription B W a)
   \<and> Invoke_transcribe a \<in> set (fst (transcription_body B W a))"
  by (auto simp: processing_body_def Let_def split_beta run_download_not_transcribe
        try_transcription_fst
      split: option.splits sum.splits if_splits
      dest: transcription_body_reached)

lemma try_processing_result:
  "snd (processing_body B W u dir) = Inr x \<Longrightarrow> snd (try_processing B W u dir) = Inr x"
  by (cases "processing_body B W u dir") (simp add: try_processing_def)

lemma orchestrator_reached:
  "Invoke_transcribe a \<in> set (fst (download_and_transcribe_with_progress B W u)) \<Longrightarrow>
   (\<exists>dir. Invoke_transcribe a \<in> set (fst (processing_body B W u dir))
      \<and> snd (download_and_transcribe_with_progress B W u) = snd (try_processing B W u dir))"
  by (auto simp: download_and_transcribe_with_progress_def Let_def split_beta
        try_processing_fst
      split: option.splits sum.splits if_splits)

lemma orchestrator_transcript:
  assumes "Invoke_transcribe a \<in> set (fst (download_and_transcribe_with_progress B W u))"
    and "model_transcribe W a = Inr r" "segments_error r = None"
  shows "snd (download_and_transcribe_with_progress B W u) =
           Inr (py_strip (py_join '' '' (segments r)))"
proof -
  from orchestrator_reached [OF assms(1)] obtain dir
    where p: "Invoke_transcribe a \<in> set (fst (processing_body B W u dir))"
      and o: "snd (download_and_transcribe_with_progress B W u) = snd (try_processing B W u dir)"
    by blast
  from processing_body_reached [OF p]
  have q: "snd (processing_body B W u dir) = snd (try_transcription B W a)"
    and t: "Invoke_transcribe a \<in> set (fst (transcription_body B W a))"
    by simp_all
  from transcription_body_reached [OF t]
  have "import_faster_whisper W = None" "whisper_model W = None" by simp_all
  then have "snd (transcription_body B W a) = Inr (py_strip (py_join '' '' (segments r)))"
    using assms(2,3) by (rule transcription_body_result)
  then have "snd (try_transcription B W a) = Inr (py_strip (py_join '' '' (segments r)))"
    by (rule try_transcription_result)
  with q have "snd (processing_body B W u dir) = Inr (py_strip (py_join '' '' (segments r)))"
    by simp
  then have "snd (try_processing B W u dir) = Inr (py_strip (py_join '' '' (segments r)))"
    by (rule try_processing_result)
  with o show ?thesis by simp
qed

section \<open>Orchestrator: transcript, disk check, terminal events\<close>

lemma sample_world_reaches:
  "Invoke_transcribe ''/tmp/tmpk3x9/audio.webm''
     \<in> set (fst (download_and_transcribe_with_progress B (sample_world 5000000000 segs) u))"
  by (simp add: download_and_transcribe_with_progress_def get_disk_usage_def sample_world_def
      try_processing_fst processing_body_def run_download_def split_beta Let_def
      startswith_def path_join_def try_transcription_fst transcription_body_def
      progress_hook_call_def byte_notification_def finished_notification_def
      total_bytes_truthy_def byte_ratio_update_def py_truediv_def)

lemma sample_world_recognition:
  "model_transcribe (sample_world n segs) f =
     Inr \<lparr>segments = segs, segments_error = None, language = ''en'',
          language_probability = 99 / 100\<rparr>"
  by (simp add: sample_world_def)

lemma strip_hello_world: "py_strip (py_join '' '' [''Hello'', '' world'']) = ''Hello  world''"
  by (simp add: py_strip_def py_isspace_def)

text \<open>
  C1 (as amended). When the run invokes the recogniser on an audio file and the
  recogniser returns the segments "Hello" and " world" without failing, the orchestrator
  returns the transcript "Hello  world", with two spaces: the join puts a space before
  the second segment's own leading space, and only the ends are trimmed.
\<close>

theorem hello_world_transcript:
  assumes "Invoke_transcribe a \<in> set (fst (download_and_transcribe_with_progress B W url))"
    and "model_transcribe W a = Inr r"
    and "segments r = [''Hello'', '' world'']"
    and "segments_error r = None"
  shows "snd (download_and_transcribe_with_progress B W url) = Inr ''Hello  world''"
  using orchestrator_transcript [OF assms(1,2,4)] assms(3) strip_hello_world by simp

theorem hello_world_single_space_counterexample:
  "model_transcribe (sample_world 5000000000 [''Hello'', '' world'']) ''/tmp/tmpk3x9/audio.webm'' =
     Inr \<lparr>segments = [''Hello'', '' world''], segments_error = None, language = ''en'',
          language_probability = 99 / 100\<rparr>
   \<and> snd (download_and_transcribe_with_progress sample_builtins
          (sample_world 5000000000 [''Hello'', '' world'']) sample_url) = Inr ''Hello  world''
   \<and> snd (download_and_transcribe_with_progress sample_builtins
          (sample_world 5000000000 [''Hello'', '' world'']) sample_url) \<noteq> Inr ''Hello world''"
  using orchestrator_transcript [where B = sample_builtins and u = sample_url
      and W = "sample_world 5000000000 [''Hello'', '' world'']",
      OF sample_world_reaches sample_world_recognition]
    strip_hello_world
  by (simp add: sample_world_recognition)

theorem hello_world_transcript_witness:
  "model_transcribe (sample_world 5000000000 [''Hello'', '' world'']) ''/tmp/tmpk3x9/audio.webm'' =
     Inr \<lparr>segments = [''Hello'', '' world''], segments_error = None, language = ''en'',
          language_probability = 99 / 100\<rparr>
   \<and> Invoke_transcribe ''/tmp/tmpk3x9/audio.webm''
     \<in> set (fst (download_and_transcribe_with_progress sample_builtins
                 (sample_world 5000000000 [''Hello'', '' world'']) sample_url))
   \<and> snd (download_and_transcribe_with_progress sample_builtins
          (sample_world 5000000000 [''Hello'', '' world'']) sample_url) = Inr ''Hello  world''"
  using hello_world_transcript [where B = sample_builtins and url = sample_url
      and W = "sample_world 5000000000 [''Hello'', '' world'']",
      OF sample_world_reaches sample_world_recognition]
    sample_world_reaches [of sample_builtins "[''Hello'', '' world'']" sample_url]
  by (simp add: sample_world_recognition)

text \<open>
  The disk check between 0 and 100 MB: the run ends with the "Insufficient disk space"
  exception right after the initial event, before anything else is called.
\<close>

lemma low_disk_space_fails_before_download:
  assumes "disk_usage W = Some (total_b, used_b, free_b)"
    and "0 < free_b" and "free_b < 100 * 1024 * 1024"
  shows "download_and_transcribe_with_progress B W url =
     ([Emit (Progress \<lparr>message = ''Initializing download...'',
               detail = ''Setting up yt-dlp'', percentage = 0, phase = Download\<rparr>)],
      Inl (Exn OtherException
            (''Insufficient disk space: ''
               @ fmt_fixed B 0 (of_nat free_b / (1024 * 1024)) @ ''MB available'')))"
proof -
  have "(of_nat free_b :: rat) < of_nat (100 * 1024 * 1024)"
    using assms(3) by (simp only: of_nat_less_iff)
  then have "(of_nat free_b :: rat) / (1024 * 1024) < 100"
    by (simp add: divide_less_eq)
  moreover have "(of_nat free_b :: rat) / (1024 * 1024) \<noteq> 0"
    using assms(2) by simp
  ultimately show ?thesis
    using assms(1)
    by (simp add: download_and_transcribe_with_progress_def get_disk_usage_def Let_def)
qed

text \<open>
  C2 at a full disk. With zero free bytes reported, \<^verbatim>\<open>free_mb\<close> is \<open>0\<close>, which is
  falsy, so the check is skipped: the download tool is invoked and the run fails later,
  with the download tool's error.
\<close>

theorem full_disk_reaches_download:
  "get_disk_usage full_disk_world = Some (0, 64000000000 / (1024 * 1024))
   \<and> download_and_transcribe_with_progress sample_builtins full_disk_world sample_url =
       ([Emit (Progress \<lparr>message = ''Initializing download...'',
                 detail = ''Setting up yt-dlp'', percentage = 0, phase = Download\<rparr>),
         Invoke_download sample_url],
        Inl (Exn OtherException
          ''Processing failed: ERROR: unable to write data: [Errno 28] No space left on device''))"
  by (simp add: full_disk_world_def sample_world_def get_disk_usage_def
      download_and_transcribe_with_progress_def try_processing_def processing_body_def
      run_download_def new_progress_hook_def Let_def)

text \<open>
  C7. When the run invokes the recogniser and the recogniser returns zero segments
  without failing, the task ends with the error event "No transcript generated" and
  emits no completion event.
\<close>

theorem no_segments_no_transcript:
  assumes "Invoke_transcribe a \<in> set (fst (download_and_transcribe_with_progress B W url))"
    and "model_transcribe W a = Inr r"
    and "segments r = []"
    and "segments_error r = None"
  shows "last (extraction_task B W url) = Emit (Transcription_error ''No transcript generated'')
         \<and> \<not> list_ex is_completion (extraction_task B W url)"
proof -
  obtain t res where o: "download_and_transcribe_with_progress B W url = (t, res)"
    by fastforce
  from orchestrator_transcript [OF assms(1,2,4)] assms(3) o
  have res: "res = Inr []" by (simp add: py_strip_def)
  from orchestrator_not_terminal [OF o] have "\<not> list_ex is_completion t"
    by (rule not_terminal_no_completion)
  with o res show ?thesis by (simp add: extraction_task_def)
qed

theorem no_segments_no_transcript_witness:
  "model_transcribe (sample_world 5000000000 []) ''/tmp/tmpk3x9/audio.webm'' =
     Inr \<lparr>segments = [], segments_error = None, language = ''en'',
          language_probability = 99 / 100\<rparr>
   \<and> Invoke_transcribe ''/tmp/tmpk3x9/audio.webm''
     \<in> set (fst (download_and_transcribe_with_progress sample_builtins
                 (sample_world 5000000000 []) sample_url))
   \<and> last (extraction_task sample_builtins (sample_world 5000000000 []) sample_url)
       = Emit (Transcription_error ''No transcript generated'')
   \<and> \<not> list_ex is_completion
          (extraction_task sample_builtins (sample_world 5000000000 []) sample_url)"
  using no_segments_no_transcript [where B = sample_builtins and url = sample_url
      and W = "sample_world 5000000000 []",
      OF sample_world_reaches sample_world_recognition]
    sample_world_reaches [of sample_builtins "[]" sample_url]
  by (simp add: sample_world_recognition)



section \<open>Gateway\<close>

text \<open>
  C6. A start-extraction message whose URL is missing, empty or rejected by the
  validator makes the handler emit exactly one event, an error event, and start no
  background task.
\<close>

theorem invalid_request_rejected:
  assumes "data ''url'' = None \<or> data ''url'' = Some []
           \<or> (\<exists>u. data ''url'' = Some u \<and> extract_video_id u = None)"
  shows "(\<exists>m. emitted (handle_extraction data) = [Transcription_error m])
         \<and> spawned (handle_extraction data) = None"
  using assms by (auto simp: handle_extraction_def)

theorem invalid_request_rejected_witness:
  "extract_video_id ''not a url'' = None
   \<and> emitted (handle_extraction [''url'' \<mapsto> ''not a url''])
       = [Transcription_error ''Invalid YouTube URL'']
   \<and> spawned (handle_extraction [''url'' \<mapsto> ''not a url'']) = None
   \<and> emitted (handle_extraction Map.empty) = [Transcription_error ''No URL provided'']
   \<and> spawned (handle_extraction Map.empty) = None"
proof -
  have n: "extract_video_id ''not a url'' = None"
    by (simp add: extract_video_id_def match_here_def startswith_def id_token_def)
  then have "[''url'' \<mapsto> ''not a url''] ''url'' = None
      \<or> [''url'' \<mapsto> ''not a url''] ''url'' = Some []
      \<or> (\<exists>u. [''url'' \<mapsto> ''not a url''] ''url'' = Some u \<and> extract_video_id u = None)"
    by simp
  from invalid_request_rejected [of "[''url'' \<mapsto> ''not a url'']"] this n show ?thesis
    by (simp add: handle_extraction_def)
qed

end
